theory Spec2Isabelle
  imports Main "HOL-Library.Sublist"
begin

unbundle bit_operations_syntax

section \<open>A filesystem model for \<open>project_setup.py\<close>\<close>

text \<open>
  The script calls two library operations, \<open>os.makedirs(p, exist_ok=True)\<close> and
  \<open>pathlib.Path.touch()\<close>, on paths that are relative to the current working
  directory. A path is the list of its components, \<open>[]\<close> being the working directory
  itself. The filesystem is a partial map from paths to nodes. A node is a regular file
  with its bytes, or a directory. The permissions of an entry are kept as what they
  allow the calling process, which is not privileged:
  \<^item> \<open>File c t\<close>: \<open>t\<close> holds when the process owns the file or may write to it, so that
    it may set its timestamps; without \<open>t\<close> it may not open the file for writing either;
  \<^item> \<open>Dir t w\<close>: \<open>t\<close> as for a file; \<open>w\<close> holds when the process may add entries to
    the directory (write and search permission).

  The process has a file mode creation mask. A directory made with mode \<open>mode\<close> gets the
  permission bits \<open>mode AND NOT umask\<close>; the process owns it, and may add entries to it
  when the owner's write bit (\<open>0o200\<close>) and search bit (\<open>0o100\<close>) are both set. A file the
  process creates is its own, so it may set its timestamps whatever the bits are.
  Symbolic links and timestamps are not part of the state: \<open>utime\<close> is modelled by whether
  it succeeds.
\<close>

type_synonym path = "string list"

type_synonym content = string

datatype node = File content bool | Dir bool bool

type_synonym filesystem = "path \<rightharpoonup> node"

text \<open>The subclasses of \<open>OSError\<close> that the system calls below can raise.\<close>

datatype error =
    FileExistsError
  | FileNotFoundError
  | NotADirectoryError
  | IsADirectoryError
  | PermissionError

datatype outcome = Ok | Raised error

fun may_set_times :: "node \<Rightarrow> bool" where
  "may_set_times (File c t) = t"
| "may_set_times (Dir t w) = t"

text \<open>
  The permission bits of a new entry, and whether they let the owner add entries to a
  directory: bit 7 is \<open>0o200\<close> (write), bit 6 is \<open>0o100\<close> (search).
\<close>

definition apply_umask :: "int \<Rightarrow> int \<Rightarrow> int" where
  "apply_umask mode umask = mode AND NOT umask"

definition owner_may_add_entries :: "int \<Rightarrow> bool" where
  "owner_may_add_entries mode = (bit mode 7 \<and> bit mode 6)"

fun is_file_node :: "node option \<Rightarrow> bool" where
  "is_file_node (Some (File c t)) = True"
| "is_file_node _ = False"

text \<open>\<open>os.path.isdir\<close> and \<open>os.path.exists\<close>.\<close>

definition isdir :: "filesystem \<Rightarrow> path \<Rightarrow> bool" where
  "isdir fs p = (case fs p of Some (Dir t w) \<Rightarrow> True | _ \<Rightarrow> False)"

definition path_exists :: "filesystem \<Rightarrow> path \<Rightarrow> bool" where
  "path_exists fs p = (fs p \<noteq> None)"

text \<open>
  A filesystem is a tree: the working directory is a directory, and the parent of
  every entry is a directory.
\<close>

definition wf_fs :: "filesystem \<Rightarrow> bool" where
  "wf_fs fs = (isdir fs [] \<and> (\<forall>p. p \<noteq> [] \<longrightarrow> fs p \<noteq> None \<longrightarrow> isdir fs (butlast p)))"

subsection \<open>Paths: \<open>pathlib.Path(s)\<close> and the \<open>/\<close> operator\<close>

text \<open>
  \<open>pathlib\<close> splits a relative path string at \<open>/\<close> and drops empty and \<open>.\<close>
  components. \<open>split_parts cur s\<close> reads \<open>s\<close> with \<open>cur\<close> the component read so far.
\<close>

fun split_parts :: "string \<Rightarrow> string \<Rightarrow> string list" where
  "split_parts cur [] = [cur]"
| "split_parts cur (c # cs) =
     (if c = CHR ''/'' then cur # split_parts [] cs else split_parts (cur @ [c]) cs)"

definition Path :: "string \<Rightarrow> path" where
  "Path s = filter (\<lambda>c. c \<noteq> [] \<and> c \<noteq> ''.'') (split_parts [] s)"

definition joinpath :: "path \<Rightarrow> string \<Rightarrow> path" where
  "joinpath base s = base @ Path s"

subsection \<open>System calls\<close>

text \<open>
  Why an entry cannot be created at \<open>p\<close> when nothing exists there: a component of the
  path is a regular file (\<open>ENOTDIR\<close>), the parent is missing (\<open>ENOENT\<close>), or the
  process may not add entries to the parent directory (\<open>EACCES\<close>).
\<close>

definition missing_error :: "filesystem \<Rightarrow> path \<Rightarrow> error" where
  "missing_error fs p =
     (if list_ex (\<lambda>q. is_file_node (fs q)) (prefixes p) then NotADirectoryError
      else FileNotFoundError)"

definition parent_error :: "filesystem \<Rightarrow> path \<Rightarrow> error option" where
  "parent_error fs p =
     (case fs (butlast p) of
        Some (Dir t w) \<Rightarrow> if w then None else Some PermissionError
      | Some (File c t) \<Rightarrow> Some NotADirectoryError
      | None \<Rightarrow> Some (missing_error fs p))"

text \<open>
  \<open>os.mkdir(p, mode)\<close> in a process with mask \<open>umask\<close>: an existing entry of any kind is
  \<open>EEXIST\<close>; the new directory has the bits \<open>mode AND NOT umask\<close>.
\<close>

definition mkdir :: "int \<Rightarrow> path \<Rightarrow> int \<Rightarrow> filesystem \<Rightarrow> outcome \<times> filesystem" where
  "mkdir umask p mode fs =
     (if fs p \<noteq> None then (Raised FileExistsError, fs)
      else case parent_error fs p of
             Some e \<Rightarrow> (Raised e, fs)
           | None \<Rightarrow>
               (Ok, fs(p \<mapsto> Dir True (owner_may_add_entries (apply_umask mode umask)))))"

text \<open>\<open>os.utime(p, None)\<close>: sets the timestamps of an existing entry.\<close>

definition utime :: "path \<Rightarrow> filesystem \<Rightarrow> outcome \<times> filesystem" where
  "utime p fs =
     (case fs p of
        Some n \<Rightarrow> if may_set_times n then (Ok, fs) else (Raised PermissionError, fs)
      | None \<Rightarrow> (Raised (missing_error fs p), fs))"

text \<open>
  \<open>os.open(p, O_CREAT | O_WRONLY [| O_EXCL], 0o666)\<close> followed by \<open>os.close\<close>: creates an
  empty file when nothing is there, owned by the process whatever \<open>0o666 AND NOT umask\<close>
  is; an existing file is opened for writing and closed, without \<open>O_TRUNC\<close>, so its
  bytes stay.
\<close>

definition open_creat_wronly :: "bool \<Rightarrow> path \<Rightarrow> filesystem \<Rightarrow> outcome \<times> filesystem" where
  "open_creat_wronly excl p fs =
     (case fs p of
        Some (Dir t w) \<Rightarrow> (Raised (if excl then FileExistsError else IsADirectoryError), fs)
      | Some (File c t) \<Rightarrow>
          if excl then (Raised FileExistsError, fs)
          else if t then (Ok, fs) else (Raised PermissionError, fs)
      | None \<Rightarrow>
          (case parent_error fs p of
             Some e \<Rightarrow> (Raised e, fs)
           | None \<Rightarrow> (Ok, fs(p \<mapsto> File [] True))))"

subsection \<open>Library operations\<close>

text \<open>
  \<open>Path.touch(mode=0o666, exist_ok=True)\<close>: with \<open>exist_ok\<close> it first tries \<open>utime\<close>
  and returns when that succeeds; any \<open>OSError\<close> of \<open>utime\<close> is discarded and the
  file is opened with \<open>O_CREAT\<close>.
\<close>

definition touch :: "bool \<Rightarrow> path \<Rightarrow> filesystem \<Rightarrow> outcome \<times> filesystem" where
  "touch exist_ok p fs =
     (if exist_ok then
        (case utime p fs of
           (Ok, fs1) \<Rightarrow> (Ok, fs1)
         | (Raised e, fs1) \<Rightarrow> open_creat_wronly False p fs1)
      else open_creat_wronly True p fs)"

text \<open>
  \<open>os.makedirs(name, mode=0o777, exist_ok=False)\<close>: when the head of the path is not
  empty and does not exist, it is created first, recursively and with the default mode
  \<open>0o777 = 511\<close>, a \<open>FileExistsError\<close> of that call being discarded; then
  \<open>mkdir(name, mode)\<close>, whose \<open>OSError\<close> is raised again unless \<open>exist_ok\<close> holds and
  \<open>name\<close> is a directory. (The library's early return for a last component \<open>.\<close> cannot
  happen: \<open>Path\<close> has dropped such components.)
\<close>

function makedirs ::
  "int \<Rightarrow> path \<Rightarrow> int \<Rightarrow> bool \<Rightarrow> filesystem \<Rightarrow> outcome \<times> filesystem" where
  "makedirs umask name mode exist_ok fs =
     (case (if butlast name \<noteq> [] \<and> \<not> path_exists fs (butlast name)
            then (case makedirs umask (butlast name) 511 exist_ok fs of
                    (Raised FileExistsError, fs1) \<Rightarrow> (Ok, fs1)
                  | r \<Rightarrow> r)
            else (Ok, fs)) of
        (Raised e, fs1) \<Rightarrow> (Raised e, fs1)
      | (Ok, fs1) \<Rightarrow>
          (case mkdir umask name mode fs1 of
             (Ok, fs2) \<Rightarrow> (Ok, fs2)
           | (Raised e, fs2) \<Rightarrow>
               if \<not> exist_ok \<or> \<not> isdir fs2 name then (Raised e, fs2) else (Ok, fs2)))"
  by pat_completeness auto
termination
proof (relation "measure (\<lambda>(umask, name, mode, exist_ok, fs). length name)")
  show "wf (measure (\<lambda>(umask, name, mode, exist_ok, fs). length name))"
    by simp
next
  fix umask mode :: int and name :: path and exist_ok :: bool and fs :: filesystem
  assume "butlast name \<noteq> [] \<and> \<not> path_exists fs (butlast name)"
  then have "name \<noteq> []"
    by auto
  then show "((umask, butlast name, 511, exist_ok, fs), (umask, name, mode, exist_ok, fs))
               \<in> measure (\<lambda>(umask, name, mode, exist_ok, fs). length name)"
    by simp
qed

declare makedirs.simps [simp del]

section \<open>The script\<close>

text \<open>The three hard-coded lists of \<open>create_project_structure\<close>, as written.\<close>

definition directories :: "string list" where
  "directories =
     [''data/raw'',
      ''data/processed'',
      ''data/output'',
      ''src/data_processing'',
      ''src/clustering'',
      ''tests'']"

definition init_locations :: "string list" where
  "init_locations =
     [''src'',
      ''src/data_processing'',
      ''src/clustering'',
      ''tests'']"

definition files_to_create :: "string list" where
  "files_to_create =
     [''requirements.txt'',
      ''main.py'',
      ''src/config.py'',
      ''src/data_processing/data_processor.py'',
      ''src/data_processing/feature_engineering.py'',
      ''src/data_processing/utils.py'',
      ''src/clustering/hierarchical_clustering.py'',
      ''src/clustering/visualization.py'']"

text \<open>
  The three \<open>for\<close> loops, run in a process with mask \<open>umask\<close>. No loop has a handler,
  so the first operation that raises ends the loop with that error, in the filesystem
  reached so far. \<open>os.makedirs\<close> is called without a mode, that is with \<open>0o777 = 511\<close>.
\<close>

fun makedirs_loop ::
  "int \<Rightarrow> path \<Rightarrow> string list \<Rightarrow> filesystem \<Rightarrow> outcome \<times> filesystem" where
  "makedirs_loop umask base_path [] fs = (Ok, fs)"
| "makedirs_loop umask base_path (dir_path # rest) fs =
     (case makedirs umask (joinpath base_path dir_path) 511 True fs of
        (Ok, fs1) \<Rightarrow> makedirs_loop umask base_path rest fs1
      | (Raised e, fs1) \<Rightarrow> (Raised e, fs1))"

fun init_loop :: "path \<Rightarrow> string list \<Rightarrow> filesystem \<Rightarrow> outcome \<times> filesystem" where
  "init_loop base_path [] fs = (Ok, fs)"
| "init_loop base_path (location # rest) fs =
     (case touch True (joinpath (joinpath base_path location) ''__init__.py'') fs of
        (Ok, fs1) \<Rightarrow> init_loop base_path rest fs1
      | (Raised e, fs1) \<Rightarrow> (Raised e, fs1))"

fun files_loop :: "path \<Rightarrow> string list \<Rightarrow> filesystem \<Rightarrow> outcome \<times> filesystem" where
  "files_loop base_path [] fs = (Ok, fs)"
| "files_loop base_path (file_path # rest) fs =
     (case touch True (joinpath base_path file_path) fs of
        (Ok, fs1) \<Rightarrow> files_loop base_path rest fs1
      | (Raised e, fs1) \<Rightarrow> (Raised e, fs1))"

definition create_project_structure :: "int \<Rightarrow> filesystem \<Rightarrow> outcome \<times> filesystem" where
  "create_project_structure umask fs =
     (let base_path = Path ''ap'' in
      case makedirs_loop umask base_path directories fs of
        (Raised e, fs1) \<Rightarrow> (Raised e, fs1)
      | (Ok, fs1) \<Rightarrow>
          (case init_loop base_path init_locations fs1 of
             (Raised e, fs2) \<Rightarrow> (Raised e, fs2)
           | (Ok, fs2) \<Rightarrow> files_loop base_path files_to_create fs2))"

text \<open>
  The program: \<open>if __name__ == "__main__": create_project_structure()\<close>. The process
  has a command line, an environment and a file mode creation mask; the script reads
  neither of the first two, and the mask acts through \<open>mkdir\<close>. An exception that
  reaches the top level ends the interpreter with exit status 1, a normal end with 0.
\<close>

definition run_main ::
  "string list \<Rightarrow> (string \<rightharpoonup> string) \<Rightarrow> int \<Rightarrow> filesystem \<Rightarrow> nat \<times> filesystem" where
  "run_main argv environ umask fs =
     (case create_project_structure umask fs of
        (Ok, fs1) \<Rightarrow> (0, fs1)
      | (Raised e, fs1) \<Rightarrow> (1, fs1))"

section \<open>The script as a sequence of operations\<close>

text \<open>
  The paths the three loops compute, and the eighteen library calls in the order the
  script makes them. \<open>run_ops\<close> stops at the first call that raises.
\<close>

definition dir_paths :: "path list" where
  "dir_paths = map (joinpath (Path ''ap'')) directories"

definition init_paths :: "path list" where
  "init_paths =
     map (\<lambda>location. joinpath (joinpath (Path ''ap'') location) ''__init__.py'') init_locations"

definition file_paths :: "path list" where
  "file_paths = map (joinpath (Path ''ap'')) files_to_create"

datatype operation = Makedirs path | Touch path

fun run_op :: "int \<Rightarrow> operation \<Rightarrow> filesystem \<Rightarrow> outcome \<times> filesystem" where
  "run_op umask (Makedirs p) fs = makedirs umask p 511 True fs"
| "run_op umask (Touch p) fs = touch True p fs"

fun run_ops :: "int \<Rightarrow> operation list \<Rightarrow> filesystem \<Rightarrow> outcome \<times> filesystem" where
  "run_ops umask [] fs = (Ok, fs)"
| "run_ops umask (x # xs) fs =
     (case run_op umask x fs of
        (Ok, fs1) \<Rightarrow> run_ops umask xs fs1
      | (Raised e, fs1) \<Rightarrow> (Raised e, fs1))"

definition script_ops :: "operation list" where
  "script_ops = map Makedirs dir_paths @ map Touch init_paths @ map Touch file_paths"

text \<open>
  What a call leaves behind when it returns: the directory is a directory; the touched
  path exists and the process may set its timestamps.
\<close>

fun ensured :: "operation \<Rightarrow> filesystem \<Rightarrow> bool" where
  "ensured (Makedirs p) fs = isdir fs p"
| "ensured (Touch p) fs = (case fs p of Some n \<Rightarrow> may_set_times n | None \<Rightarrow> False)"

text \<open>
  The entries a call can create: \<open>makedirs\<close> a directory of the process at a
  non-empty prefix of its path, \<open>touch\<close> an empty file of the process at its path.
\<close>

fun creates :: "operation \<Rightarrow> path \<Rightarrow> node \<Rightarrow> bool" where
  "creates (Makedirs d) q n = (q \<noteq> [] \<and> prefix q d \<and> (\<exists>w. n = Dir True w))"
| "creates (Touch p) q n = (q = p \<and> n = File [] True)"

text \<open>
  The paths at which the script needs a directory: the listed directories and their
  ancestors below the working directory.
\<close>

definition expected_dirs :: "path list" where
  "expected_dirs = remdups (concat (map (\<lambda>d. tl (prefixes d)) dir_paths))"

text \<open>Every path of the layout: the directories above and the twelve files.\<close>

definition layout_paths :: "path list" where
  "layout_paths = expected_dirs @ init_paths @ file_paths"

text \<open>The eighteen paths that the three lists name.\<close>

definition manifest_paths :: "path list" where
  "manifest_paths = dir_paths @ init_paths @ file_paths"

text \<open>
  Concrete filesystems: an empty working directory of the process; and one where
  \<open>ap/src\<close> is a regular file, so that nothing can exist below it. The usual mask is
  \<open>0o022 = 18\<close>; with \<open>0o222 = 146\<close> a new directory cannot take entries.
\<close>

definition empty_cwd :: filesystem where
  "empty_cwd = [[] \<mapsto> Dir True True]"

definition collision_fs :: filesystem where
  "collision_fs =
     [[] \<mapsto> Dir True True, [''ap''] \<mapsto> Dir True True,
      [''ap'', ''src''] \<mapsto> File ''notes'' True]"

text \<open>
  A project that has been worked in: \<open>ap/src/config.py\<close> has content, and a read-only
  file lies beside \<open>ap\<close>.
\<close>

definition edited_fs :: filesystem where
  "edited_fs =
     [[] \<mapsto> Dir True True, [''ap''] \<mapsto> Dir True True, [''ap'', ''src''] \<mapsto> Dir True True,
      [''ap'', ''src'', ''config.py''] \<mapsto> File ''DEBUG = True'' True,
      [''README.md''] \<mapsto> File ''notes'' False]"

section \<open>What the script can observe\<close>





section \<open>Summaries of the operations, used in the proofs\<close>

text \<open>
  What one call \<open>makedirs umask name mode exist_ok fs\<close> with outcome \<open>r\<close> and final
  filesystem \<open>fs'\<close> does to a tree: the result is a tree; an entry that differs was
  absent and is now a directory at a non-empty prefix of \<open>name\<close>; on return \<open>name\<close> is a
  directory; a call that raises has not created \<open>name\<close> and, repeated in the filesystem
  it left, raises the same error and changes nothing more; and it never raises
  \<open>FileNotFoundError\<close>, nor \<open>FileExistsError\<close> when nothing is at \<open>name\<close>.
\<close>

definition makedirs_post ::
  "int \<Rightarrow> path \<Rightarrow> int \<Rightarrow> bool \<Rightarrow> filesystem \<Rightarrow> outcome \<Rightarrow> filesystem \<Rightarrow> bool" where
  "makedirs_post umask name mode exist_ok fs r fs' =
     (wf_fs fs' \<and>
      (\<forall>q. fs' q \<noteq> fs q \<longrightarrow>
         fs q = None \<and> q \<noteq> [] \<and> prefix q name \<and> (\<exists>w. fs' q = Some (Dir True w))) \<and>
      (r = Ok \<longrightarrow> isdir fs' name) \<and>
      (r \<noteq> Ok \<longrightarrow> fs' name = fs name) \<and>
      (r \<noteq> Ok \<longrightarrow> makedirs umask name mode exist_ok fs' = (r, fs')) \<and>
      r \<noteq> Raised FileNotFoundError \<and>
      (fs name = None \<longrightarrow> r \<noteq> Raised FileExistsError))"

text \<open>The same summary for one operation of the script.\<close>

definition step_post ::
  "int \<Rightarrow> operation \<Rightarrow> filesystem \<Rightarrow> outcome \<Rightarrow> filesystem \<Rightarrow> bool" where
  "step_post umask x fs r fs' =
     (wf_fs fs' \<and>
      (\<forall>q. fs' q \<noteq> fs q \<longrightarrow> fs q = None \<and> (\<exists>n. fs' q = Some n \<and> creates x q n)) \<and>
      (r = Ok \<longrightarrow> ensured x fs') \<and>
      (r \<noteq> Ok \<longrightarrow> run_op umask x fs' = (r, fs')) \<and>
      (r = Raised FileNotFoundError \<longrightarrow> (\<exists>p. x = Touch p \<and> fs (butlast p) = None)))"

text \<open>
  And for a sequence of operations: nothing that existed has changed, every new entry
  was created by one of the operations, and on return every operation's effect holds.
\<close>

definition run_post :: "operation list \<Rightarrow> filesystem \<Rightarrow> outcome \<Rightarrow> filesystem \<Rightarrow> bool" where
  "run_post xs fs r fs' =
     (wf_fs fs' \<and> fs \<subseteq>\<^sub>m fs' \<and>
      (\<forall>q. fs' q \<noteq> fs q \<longrightarrow> fs q = None \<and> (\<exists>n x. x \<in> set xs \<and> fs' q = Some n \<and> creates x q n)) \<and>
      (r = Ok \<longrightarrow> (\<forall>x\<in>set xs. ensured x fs')))"

section \<open>Basic facts about the system calls and library operations\<close>

lemma isdir_iff: "isdir fs p \<longleftrightarrow> (\<exists>t w. fs p = Some (Dir t w))"
  by (simp add: isdir_def split: option.splits node.splits)

lemma isdir_not_None: "isdir fs p \<Longrightarrow> fs p \<noteq> None"
  by (auto simp: isdir_iff)

lemma parent_error_None: "parent_error fs p = None \<longleftrightarrow> (\<exists>t. fs (butlast p) = Some (Dir t True))"
  by (auto simp: parent_error_def split: option.splits node.splits)

lemma butlast_neq: "p \<noteq> [] \<Longrightarrow> butlast p \<noteq> p"
  by (metis append_butlast_last_id append_self_conv not_Cons_self2)

lemma wf_fs_update:
  assumes "wf_fs fs" and "fs p = None" and "isdir fs (butlast p)"
  shows "wf_fs (fs(p \<mapsto> n))"
proof -
  from assms(1) have root: "isdir fs []"
    and par: "\<And>q. q \<noteq> [] \<Longrightarrow> fs q \<noteq> None \<Longrightarrow> isdir fs (butlast q)"
    by (auto simp: wf_fs_def)
  from root assms(2) have pne: "p \<noteq> []"
    by (auto simp: isdir_iff)
  have "isdir (fs(p \<mapsto> n)) []"
    using root pne by (simp add: isdir_iff)
  moreover have "isdir (fs(p \<mapsto> n)) (butlast q)"
    if q: "q \<noteq> []" "(fs(p \<mapsto> n)) q \<noteq> None" for q
  proof (cases "q = p")
    case True
    have "butlast p \<noteq> p"
      using pne by (rule butlast_neq)
    then show ?thesis
      using True assms(3) by (simp add: isdir_iff)
  next
    case False
    with q have "isdir fs (butlast q)"
      using par by simp
    moreover from this assms(2) have "butlast q \<noteq> p"
      by (auto simp: isdir_iff)
    ultimately show ?thesis
      by (simp add: isdir_iff)
  qed
  ultimately show ?thesis
    by (simp add: wf_fs_def)
qed

lemma mkdir_cases:
  assumes "mkdir umask p mode fs = (r, fs')"
  shows "(r = Ok \<and> fs p = None \<and> isdir fs (butlast p) \<and>
          fs' = fs(p \<mapsto> Dir True (owner_may_add_entries (apply_umask mode umask))))
       \<or> ((\<exists>e. r = Raised e) \<and> fs' = fs)"
  using assms
  by (auto simp: mkdir_def parent_error_None isdir_iff split: if_splits option.splits)

lemma touch_cases:
  assumes "touch True p fs = (r, fs')"
  shows "(r = Ok \<and> fs p = None \<and> isdir fs (butlast p) \<and> fs' = fs(p \<mapsto> File [] True))
       \<or> (r = Ok \<and> (\<exists>n. fs p = Some n \<and> may_set_times n) \<and> fs' = fs)
       \<or> ((\<exists>e. r = Raised e) \<and> fs' = fs)"
  using assms
  by (auto simp: touch_def utime_def open_creat_wronly_def parent_error_None isdir_iff
           split: if_splits option.splits node.splits prod.splits outcome.splits)

lemma wf_fs_root: "wf_fs fs \<Longrightarrow> fs [] \<noteq> None"
  by (simp add: wf_fs_def isdir_not_None)

lemma wf_fs_parent: "wf_fs fs \<Longrightarrow> fs p \<noteq> None \<Longrightarrow> p \<noteq> [] \<Longrightarrow> isdir fs (butlast p)"
  by (simp add: wf_fs_def)

lemma wf_fs_absent_child: "wf_fs fs \<Longrightarrow> p \<noteq> [] \<Longrightarrow> fs (butlast p) = None \<Longrightarrow> fs p = None"
  using wf_fs_parent isdir_not_None by blast

lemma prefix_butlast: "prefix q (butlast p) \<Longrightarrow> prefix q p"
  by (metis prefix_order.trans prefixeq_butlast)

lemma not_prefix_butlast: "p \<noteq> [] \<Longrightarrow> \<not> prefix p (butlast p)"
  by (metis butlast_neq prefix_order.antisym prefixeq_butlast)

lemma makedirs_norec:
  "butlast name = [] \<or> path_exists fs (butlast name) \<Longrightarrow>
   makedirs umask name mode e fs =
     (case mkdir umask name mode fs of
        (Ok, fs2) \<Rightarrow> (Ok, fs2)
      | (Raised err, fs2) \<Rightarrow>
          if \<not> e \<or> \<not> isdir fs2 name then (Raised err, fs2) else (Ok, fs2))"
  by (subst makedirs.simps) auto

lemma makedirs_rec:
  "butlast name \<noteq> [] \<Longrightarrow> \<not> path_exists fs (butlast name) \<Longrightarrow>
   makedirs umask name mode e fs =
     (case (case makedirs umask (butlast name) 511 e fs of
              (Raised FileExistsError, fs1) \<Rightarrow> (Ok, fs1)
            | r \<Rightarrow> r) of
        (Raised err, fs1) \<Rightarrow> (Raised err, fs1)
      | (Ok, fs1) \<Rightarrow>
          (case mkdir umask name mode fs1 of
             (Ok, fs2) \<Rightarrow> (Ok, fs2)
           | (Raised err, fs2) \<Rightarrow>
               if \<not> e \<or> \<not> isdir fs2 name then (Raised err, fs2) else (Ok, fs2)))"
  by (subst makedirs.simps) simp

text \<open>The last step of \<open>makedirs\<close>, when the head of the path exists.\<close>

lemma mkdir_step:
  assumes wf: "wf_fs fs"
    and hd: "fs (butlast name) \<noteq> None"
    and nr: "butlast name = [] \<or> path_exists fs (butlast name)"
    and res: "makedirs umask name mode e fs = (r, fs')"
  shows "makedirs_post umask name mode e fs r fs'"
proof -
  obtain r0 fs0 where m: "mkdir umask name mode fs = (r0, fs0)"
    by (cases "mkdir umask name mode fs")
  from res have res': "(if r0 = Ok then (Ok, fs0)
      else if \<not> e \<or> \<not> isdir fs0 name then (r0, fs0) else (Ok, fs0)) = (r, fs')"
    unfolding makedirs_norec[OF nr] m by (cases r0) (auto split: if_splits)
  from mkdir_cases[OF m] show ?thesis
  proof
    assume a: "r0 = Ok \<and> fs name = None \<and> isdir fs (butlast name) \<and>
          fs0 = fs(name \<mapsto> Dir True (owner_may_add_entries (apply_umask mode umask)))"
    with res' have r: "r = Ok"
      and f: "fs' = fs(name \<mapsto> Dir True (owner_may_add_entries (apply_umask mode umask)))"
      by auto
    from a wf have ne: "name \<noteq> []"
      using wf_fs_root by fastforce
    have "wf_fs fs'"
      unfolding f using wf a by (intro wf_fs_update) auto
    then show ?thesis
      using a ne by (auto simp: makedirs_post_def f r isdir_iff)
  next
    assume a: "(\<exists>err. r0 = Raised err) \<and> fs0 = fs"
    with res' have f: "fs' = fs" and r: "r = Ok \<longrightarrow> isdir fs name"
      by (auto split: if_splits)
    from a res' have r0: "r = Ok \<or> r = r0"
      by (auto split: if_splits)
    have e1: "r0 \<noteq> Raised FileNotFoundError"
      using m hd by (auto simp: mkdir_def parent_error_def isdir_iff
          split: if_splits option.splits node.splits)
    have e2: "fs name = None \<longrightarrow> r0 \<noteq> Raised FileExistsError"
      using m hd by (auto simp: mkdir_def parent_error_def isdir_iff
          split: if_splits option.splits node.splits)
    have again: "makedirs umask name mode e fs' = (r, fs')"
      using res f by simp
    show ?thesis
      unfolding makedirs_post_def using wf f r r0 e1 e2 again by (auto simp: isdir_iff)
  qed
qed

lemma makedirs_spec:
  "wf_fs fs \<Longrightarrow> makedirs umask name mode e fs = (r, fs') \<Longrightarrow> makedirs_post umask name mode e fs r fs'"
proof (induction umask name mode e fs arbitrary: r fs' rule: makedirs.induct)
  case (1 umask name mode e fs)
  let ?head = "butlast name"
  show ?case
  proof (cases "?head \<noteq> [] \<and> \<not> path_exists fs ?head")
    case False
    then have nr: "butlast name = [] \<or> path_exists fs (butlast name)"
      by blast
    have hd: "fs (butlast name) \<noteq> None"
    proof (cases "butlast name = []")
      case True
      then show ?thesis
        using wf_fs_root[OF "1.prems"(1)] by auto
    next
      case False
      with nr show ?thesis
        by (simp add: path_exists_def)
    qed
    from mkdir_step[OF "1.prems"(1) hd nr "1.prems"(2)] show ?thesis .
  next
    case True
    then have hne: "?head \<noteq> []" and hmiss: "fs ?head = None"
      and c: "butlast name \<noteq> []" "\<not> path_exists fs (butlast name)"
      by (auto simp: path_exists_def)
    then have nne: "name \<noteq> []"
      by auto
    have nmiss: "fs name = None"
      using wf_fs_absent_child[OF "1.prems"(1) nne hmiss] .
    obtain r1 fs1 where rec: "makedirs umask ?head 511 e fs = (r1, fs1)"
      by (cases "makedirs umask ?head 511 e fs")
    have ih: "makedirs_post umask ?head 511 e fs r1 fs1"
      using "1.IH"[OF True "1.prems"(1) rec] .
    then have wf1: "wf_fs fs1"
      and ch: "\<And>q. fs1 q \<noteq> fs q \<Longrightarrow>
                 fs q = None \<and> q \<noteq> [] \<and> prefix q ?head \<and> (\<exists>w. fs1 q = Some (Dir True w))"
      by (auto simp: makedirs_post_def)
    have n1: "fs1 name = None"
    proof (rule ccontr)
      assume "fs1 name \<noteq> None"
      with nmiss have "fs1 name \<noteq> fs name"
        by simp
      from ch[OF this] not_prefix_butlast[OF nne] show False
        by simp
    qed
    have ch_name: "fs q = None \<and> q \<noteq> [] \<and> prefix q name \<and> (\<exists>w. fs1 q = Some (Dir True w))"
      if "fs1 q \<noteq> fs q" for q
      using ch[OF that] by (auto intro: prefix_butlast)
    show ?thesis
    proof (cases r1)
      case Ok
      with ih have h1: "isdir fs1 ?head"
        by (simp add: makedirs_post_def)
      then have ex1: "butlast name = [] \<or> path_exists fs1 (butlast name)"
        by (simp add: path_exists_def isdir_not_None)
      have "makedirs umask name mode e fs =
          (case mkdir umask name mode fs1 of
             (Ok, fs2) \<Rightarrow> (Ok, fs2)
           | (Raised err, fs2) \<Rightarrow>
               if \<not> e \<or> \<not> isdir fs2 name then (Raised err, fs2) else (Ok, fs2))"
        unfolding makedirs_rec[OF c] rec Ok by simp
      also have "\<dots> = makedirs umask name mode e fs1"
        using makedirs_norec[OF ex1] by simp
      finally have tail: "makedirs umask name mode e fs1 = (r, fs')"
        using "1.prems"(2) by simp
      from mkdir_step[OF wf1 isdir_not_None[OF h1] ex1 tail]
      have p1: "makedirs_post umask name mode e fs1 r fs'" .
      then have wf': "wf_fs fs'"
        and ch1: "\<And>q. fs' q \<noteq> fs1 q \<Longrightarrow>
                 fs1 q = None \<and> q \<noteq> [] \<and> prefix q name \<and> (\<exists>w. fs' q = Some (Dir True w))"
        and ok: "r = Ok \<longrightarrow> isdir fs' name"
        and keep: "r \<noteq> Ok \<longrightarrow> fs' name = fs1 name"
        and again: "r \<noteq> Ok \<longrightarrow> makedirs umask name mode e fs' = (r, fs')"
        and nf: "r \<noteq> Raised FileNotFoundError"
        and nx: "fs1 name = None \<longrightarrow> r \<noteq> Raised FileExistsError"
        by (auto simp: makedirs_post_def)
      have ch': "fs q = None \<and> q \<noteq> [] \<and> prefix q name \<and> (\<exists>w. fs' q = Some (Dir True w))"
        if neq: "fs' q \<noteq> fs q" for q
      proof (cases "fs1 q = fs q")
        case True
        with neq have "fs' q \<noteq> fs1 q"
          by simp
        from ch1[OF this] True show ?thesis
          by simp
      next
        case False
        from ch_name[OF False] obtain w where a: "fs q = None" "q \<noteq> []" "prefix q name"
          "fs1 q = Some (Dir True w)"
          by blast
        have "fs' q = fs1 q"
          using ch1[of q] a(4) by auto
        with a show ?thesis
          by simp
      qed
      from keep n1 nmiss have keep': "r \<noteq> Ok \<longrightarrow> fs' name = fs name"
        by simp
      show ?thesis
        unfolding makedirs_post_def using wf' ch' ok keep' again nf nx n1 by blast
    next
      case (Raised err)
      with ih hmiss have er: "err \<noteq> FileNotFoundError" "err \<noteq> FileExistsError"
        and same: "fs1 ?head = fs ?head"
        and again1: "makedirs umask ?head 511 e fs1 = (Raised err, fs1)"
        by (simp_all add: makedirs_post_def)
      have "makedirs umask name mode e fs = (Raised err, fs1)"
        unfolding makedirs_rec[OF c] rec Raised using er by (cases err) simp_all
      with "1.prems"(2) have r: "r = Raised err" and f: "fs' = fs1"
        by auto
      from same hmiss have c1: "\<not> path_exists fs1 (butlast name)"
        by (simp add: path_exists_def)
      have again: "makedirs umask name mode e fs1 = (Raised err, fs1)"
        unfolding makedirs_rec[OF c(1) c1] again1 using er by (cases err) simp_all
      show ?thesis
        unfolding makedirs_post_def r f using wf1 ch_name n1 nmiss again er by auto
    qed
  qed
qed

lemma touch_not_found:
  assumes "touch True p fs = (Raised FileNotFoundError, fs')"
  shows "fs (butlast p) = None"
  using assms
  by (auto simp: touch_def utime_def open_creat_wronly_def parent_error_def
           split: if_splits option.splits node.splits prod.splits outcome.splits)

lemma run_op_spec:
  assumes wf: "wf_fs fs" and run: "run_op umask x fs = (r, fs')"
  shows "step_post umask x fs r fs'"
proof (cases x)
  case (Makedirs p)
  with run have "makedirs umask p 511 True fs = (r, fs')"
    by simp
  from makedirs_spec[OF wf this] show ?thesis
    unfolding makedirs_post_def step_post_def Makedirs by auto
next
  case (Touch p)
  with run have t: "touch True p fs = (r, fs')"
    by simp
  from touch_cases[OF t] consider
      (new) "r = Ok" "fs p = None" "isdir fs (butlast p)" "fs' = fs(p \<mapsto> File [] True)"
    | (old) n where "r = Ok" "fs p = Some n" "may_set_times n" "fs' = fs"
    | (err) e where "r = Raised e" "fs' = fs"
    by auto
  then show ?thesis
  proof cases
    case new
    have "wf_fs fs'"
      unfolding new(4) using wf new(2,3) by (rule wf_fs_update)
    then show ?thesis
      unfolding step_post_def Touch using new by auto
  next
    case old
    then show ?thesis
      unfolding step_post_def Touch using wf by auto
  next
    case err
    then show ?thesis
      unfolding step_post_def Touch using wf touch_not_found[of p fs fs'] t by auto
  qed
qed

lemma step_post_le: "step_post umask x fs r fs' \<Longrightarrow> fs \<subseteq>\<^sub>m fs'"
  unfolding step_post_def map_le_def by (metis domIff)

lemma ensured_mono: "ensured x fs \<Longrightarrow> fs \<subseteq>\<^sub>m fs' \<Longrightarrow> ensured x fs'"
proof (cases x)
  case (Makedirs p)
  assume "ensured x fs" "fs \<subseteq>\<^sub>m fs'"
  then show ?thesis
    unfolding Makedirs by (auto simp: isdir_iff map_le_def dom_def)
next
  case (Touch p)
  assume "ensured x fs" "fs \<subseteq>\<^sub>m fs'"
  then show ?thesis
    unfolding Touch by (auto simp: map_le_def dom_def split: option.splits)
qed

lemma makedirs_noop:
  assumes wf: "wf_fs fs" and d: "isdir fs p"
  shows "makedirs umask p mode True fs = (Ok, fs)"
proof -
  from d have ex: "fs p \<noteq> None"
    by (rule isdir_not_None)
  have "butlast p = [] \<or> path_exists fs (butlast p)"
  proof (cases "p = []")
    case True
    then show ?thesis by simp
  next
    case False
    from wf_fs_parent[OF wf ex False] show ?thesis
      by (simp add: path_exists_def isdir_not_None)
  qed
  from makedirs_norec[OF this] ex d show ?thesis
    by (simp add: mkdir_def)
qed

lemma touch_noop:
  assumes "fs p = Some n" and "may_set_times n"
  shows "touch True p fs = (Ok, fs)"
  using assms by (simp add: touch_def utime_def)

lemma run_op_noop: "wf_fs fs \<Longrightarrow> ensured x fs \<Longrightarrow> run_op umask x fs = (Ok, fs)"
  by (cases x) (auto simp: makedirs_noop touch_noop split: option.splits)

lemma run_ops_noop:
  "wf_fs fs \<Longrightarrow> \<forall>x\<in>set xs. ensured x fs \<Longrightarrow> run_ops umask xs fs = (Ok, fs)"
  by (induction xs) (simp_all add: run_op_noop)

lemma run_ops_append:
  "run_ops umask (xs @ ys) fs =
     (case run_ops umask xs fs of
        (Ok, fs1) \<Rightarrow> run_ops umask ys fs1
      | (Raised e, fs1) \<Rightarrow> (Raised e, fs1))"
  by (induction xs arbitrary: fs) (auto split: prod.splits outcome.splits)

lemma run_ops_spec:
  "wf_fs fs \<Longrightarrow> run_ops umask xs fs = (r, fs') \<Longrightarrow> run_post xs fs r fs'"
proof (induction xs arbitrary: fs)
  case Nil
  then show ?case
    by (auto simp: run_post_def)
next
  case (Cons x xs)
  obtain r1 fs1 where step: "run_op umask x fs = (r1, fs1)"
    by (cases "run_op umask x fs")
  have sp: "step_post umask x fs r1 fs1"
    using run_op_spec[OF Cons.prems(1) step] .
  then have wf1: "wf_fs fs1"
    and ch1: "\<And>q. fs1 q \<noteq> fs q \<Longrightarrow> fs q = None \<and> (\<exists>n. fs1 q = Some n \<and> creates x q n)"
    by (auto simp: step_post_def simp del: creates.simps)
  have le1: "fs \<subseteq>\<^sub>m fs1"
    using sp by (rule step_post_le)
  show ?case
  proof (cases r1)
    case (Raised e)
    with step Cons.prems(2) have r: "r = Raised e" and f: "fs' = fs1"
      by auto
    show ?thesis
      unfolding run_post_def r f using wf1 le1 ch1
      by (simp del: creates.simps) (metis list.set_intros(1))
  next
    case Ok
    with step Cons.prems(2) have rest: "run_ops umask xs fs1 = (r, fs')"
      by simp
    from Cons.IH[OF wf1 rest] have wf': "wf_fs fs'" and le': "fs1 \<subseteq>\<^sub>m fs'"
      and ch': "\<And>q. fs' q \<noteq> fs1 q \<Longrightarrow>
                  fs1 q = None \<and> (\<exists>n y. y \<in> set xs \<and> fs' q = Some n \<and> creates y q n)"
      and en': "r = Ok \<Longrightarrow> \<forall>y\<in>set xs. ensured y fs'"
      by (auto simp: run_post_def simp del: creates.simps)
    have le: "fs \<subseteq>\<^sub>m fs'"
      using le1 le' by (rule map_le_trans)
    have ch: "fs q = None \<and> (\<exists>n y. y \<in> set (x # xs) \<and> fs' q = Some n \<and> creates y q n)"
      if neq: "fs' q \<noteq> fs q" for q
    proof (cases "fs1 q = fs q")
      case True
      with neq have "fs' q \<noteq> fs1 q" by simp
      from ch'[OF this] True show ?thesis
        by (metis list.set_intros(2))
    next
      case False
      from ch1[OF False] obtain n where a: "fs q = None" "fs1 q = Some n" "creates x q n"
        by blast
      from a(2) le' have "fs' q = Some n"
        by (metis domI map_le_def)
      with a show ?thesis
        by (metis list.set_intros(1))
    qed
    have en: "\<forall>y\<in>set (x # xs). ensured y fs'" if "r = Ok"
    proof -
      from sp Ok have "ensured x fs1"
        by (simp add: step_post_def)
      then have "ensured x fs'"
        using le' by (rule ensured_mono)
      with en'[OF that] show ?thesis
        by simp
    qed
    show ?thesis
      unfolding run_post_def using wf' le ch en by blast
  qed
qed

text \<open>
  A sequence that raises splits into the calls that returned, the call that raised in
  the filesystem they produced, and the calls that were never made.
\<close>

lemma run_ops_fail:
  "run_ops umask xs fs = (Raised e, fs') \<Longrightarrow>
     \<exists>done x rest s. xs = done @ x # rest \<and> run_ops umask done fs = (Ok, s) \<and>
        run_op umask x s = (Raised e, fs')"
proof (induction xs arbitrary: fs)
  case Nil
  then show ?case by simp
next
  case (Cons x xs)
  obtain r1 fs1 where step: "run_op umask x fs = (r1, fs1)"
    by (cases "run_op umask x fs")
  show ?case
  proof (cases r1)
    case (Raised e1)
    with step Cons.prems have "x # xs = [] @ x # xs \<and> run_ops umask [] fs = (Ok, fs) \<and>
        run_op umask x fs = (Raised e, fs')"
      by simp
    then show ?thesis
      by blast
  next
    case Ok
    with step Cons.prems have "run_ops umask xs fs1 = (Raised e, fs')"
      by simp
    from Cons.IH[OF this] obtain dn y rs s where
      a: "xs = dn @ y # rs" "run_ops umask dn fs1 = (Ok, s)" "run_op umask y s = (Raised e, fs')"
      by blast
    from a(1,2) step Ok have "x # xs = (x # dn) @ y # rs \<and> run_ops umask (x # dn) fs = (Ok, s)"
      by simp
    with a(3) show ?thesis
      by blast
  qed
qed

lemma run_ops_fail_conv:
  "xs = done @ x # rest \<Longrightarrow> run_ops umask done fs = (Ok, s) \<Longrightarrow>
   run_op umask x s = (Raised e, s') \<Longrightarrow> run_ops umask xs fs = (Raised e, s')"
  by (simp add: run_ops_append)

lemma makedirs_loop_run_ops:
  "makedirs_loop umask base ds fs = run_ops umask (map (\<lambda>d. Makedirs (joinpath base d)) ds) fs"
  by (induction ds arbitrary: fs) (auto split: prod.splits outcome.splits)

lemma init_loop_run_ops:
  "init_loop base ls fs =
     run_ops umask (map (\<lambda>l. Touch (joinpath (joinpath base l) ''__init__.py'')) ls) fs"
  by (induction ls arbitrary: fs) (auto split: prod.splits outcome.splits)

lemma files_loop_run_ops:
  "files_loop base ps fs = run_ops umask (map (\<lambda>p. Touch (joinpath base p)) ps) fs"
  by (induction ps arbitrary: fs) (auto split: prod.splits outcome.splits)

lemma create_project_structure_run_ops:
  "create_project_structure umask fs = run_ops umask script_ops fs"
  unfolding create_project_structure_def script_ops_def dir_paths_def init_paths_def
    file_paths_def Let_def makedirs_loop_run_ops init_loop_run_ops[of _ _ _ umask]
    files_loop_run_ops[of _ _ _ umask] run_ops_append map_map comp_def
  by (auto split: prod.splits outcome.splits)

section \<open>The paths of the script, evaluated\<close>

lemma dir_paths_eval:
  "dir_paths =
     [[''ap'', ''data'', ''raw''], [''ap'', ''data'', ''processed''], [''ap'', ''data'', ''output''],
      [''ap'', ''src'', ''data_processing''], [''ap'', ''src'', ''clustering''], [''ap'', ''tests'']]"
  by (simp add: dir_paths_def directories_def joinpath_def Path_def)

lemma init_paths_eval:
  "init_paths =
     [[''ap'', ''src'', ''__init__.py''],
      [''ap'', ''src'', ''data_processing'', ''__init__.py''],
      [''ap'', ''src'', ''clustering'', ''__init__.py''],
      [''ap'', ''tests'', ''__init__.py'']]"
  by (simp add: init_paths_def init_locations_def joinpath_def Path_def)

lemma file_paths_eval:
  "file_paths =
     [[''ap'', ''requirements.txt''], [''ap'', ''main.py''],
      [''ap'', ''src'', ''config.py''],
      [''ap'', ''src'', ''data_processing'', ''data_processor.py''],
      [''ap'', ''src'', ''data_processing'', ''feature_engineering.py''],
      [''ap'', ''src'', ''data_processing'', ''utils.py''],
      [''ap'', ''src'', ''clustering'', ''hierarchical_clustering.py''],
      [''ap'', ''src'', ''clustering'', ''visualization.py'']]"
  by (simp add: file_paths_def files_to_create_def joinpath_def Path_def)

lemma expected_dirs_eval:
  "expected_dirs =
     [[''ap'', ''data'', ''raw''], [''ap'', ''data'', ''processed''], [''ap'', ''data''],
      [''ap'', ''data'', ''output''], [''ap'', ''src'', ''data_processing''], [''ap'', ''src''],
      [''ap'', ''src'', ''clustering''], [''ap''], [''ap'', ''tests'']]"
  by (simp add: expected_dirs_def dir_paths_eval)

section \<open>The concrete filesystems are trees\<close>

lemma wf_fs_empty_cwd: "wf_fs empty_cwd"
  by (auto simp: wf_fs_def isdir_iff empty_cwd_def split: if_splits)

lemma wf_fs_ap: "wf_fs (empty_cwd([''ap''] \<mapsto> Dir True True))"
  using wf_fs_empty_cwd by (rule wf_fs_update) (auto simp: empty_cwd_def isdir_iff)

lemma wf_fs_collision_fs: "wf_fs collision_fs"
proof -
  have "wf_fs (empty_cwd([''ap''] \<mapsto> Dir True True, [''ap'', ''src''] \<mapsto> File ''notes'' True))"
    using wf_fs_ap by (rule wf_fs_update) (auto simp: empty_cwd_def isdir_iff)
  then show ?thesis
    by (simp add: collision_fs_def empty_cwd_def)
qed

lemma wf_fs_edited_fs: "wf_fs edited_fs"
proof -
  have "wf_fs (empty_cwd([''ap''] \<mapsto> Dir True True, [''ap'', ''src''] \<mapsto> Dir True True))"
    using wf_fs_ap by (rule wf_fs_update) (auto simp: empty_cwd_def isdir_iff)
  then have "wf_fs (empty_cwd([''ap''] \<mapsto> Dir True True, [''ap'', ''src''] \<mapsto> Dir True True,
      [''ap'', ''src'', ''config.py''] \<mapsto> File ''DEBUG = True'' True))"
    by (rule wf_fs_update) (auto simp: empty_cwd_def isdir_iff)
  then have "wf_fs (empty_cwd([''ap''] \<mapsto> Dir True True, [''ap'', ''src''] \<mapsto> Dir True True,
      [''ap'', ''src'', ''config.py''] \<mapsto> File ''DEBUG = True'' True,
      [''README.md''] \<mapsto> File ''notes'' False))"
    by (rule wf_fs_update) (auto simp: empty_cwd_def isdir_iff)
  then show ?thesis
    by (simp add: edited_fs_def empty_cwd_def)
qed

section \<open>The script as a whole\<close>

lemma set_tl_prefixes: "set (tl (prefixes d)) = {q. q \<noteq> [] \<and> prefix q d}"
  by (cases d) (auto simp: prefix_Cons)

lemma set_script_ops:
  "set script_ops = Makedirs ` set dir_paths \<union> Touch ` set (init_paths @ file_paths)"
  by (auto simp: script_ops_def)

lemma set_layout_paths:
  "set layout_paths =
     {q. q \<noteq> [] \<and> (\<exists>d\<in>set dir_paths. prefix q d)} \<union> set (init_paths @ file_paths)"
  by (auto simp: layout_paths_def expected_dirs_def set_tl_prefixes)

lemma creates_layout:
  assumes "x \<in> set script_ops" and "creates x q n"
  shows "q \<in> set layout_paths"
proof (cases x)
  case (Makedirs d)
  with assms show ?thesis
    unfolding set_script_ops set_layout_paths by auto
next
  case (Touch p)
  with assms show ?thesis
    unfolding set_script_ops set_layout_paths by auto
qed

lemma layout_under_ap: "\<forall>q\<in>set layout_paths. prefix [''ap''] q"
  by (simp add: layout_paths_def expected_dirs_eval init_paths_eval file_paths_eval)

lemma run_empty: "fst (create_project_structure 18 empty_cwd) = Ok"
  by code_simp

lemma run_result:
  "fst (create_project_structure umask fs) = r \<Longrightarrow>
   create_project_structure umask fs = (r, snd (create_project_structure umask fs))"
  by (cases "create_project_structure umask fs") simp

lemma script_post:
  assumes "wf_fs fs"
  shows "run_post script_ops fs (fst (create_project_structure umask fs)) (snd (create_project_structure umask fs))"
  using run_ops_spec[OF assms, of umask script_ops] by (simp add: create_project_structure_run_ops)

lemma script_le: "wf_fs fs \<Longrightarrow> fs \<subseteq>\<^sub>m snd (create_project_structure umask fs)"
  using script_post by (simp add: run_post_def)

lemma script_wf: "wf_fs fs \<Longrightarrow> wf_fs (snd (create_project_structure umask fs))"
  using script_post by (simp add: run_post_def)

section \<open>Existing entries, other paths, and completeness\<close>

lemma map_le_Some: "fs \<subseteq>\<^sub>m fs' \<Longrightarrow> fs p = Some n \<Longrightarrow> fs' p = Some n"
  by (metis domI map_le_def)

text \<open>
  Claim C4 (non-destructiveness). Whatever exists before
  \<open>create_project_structure\<close> runs, at any path and so at every marker and file path
  of the manifest, is the same node afterwards, with the same bytes: nothing is deleted,
  overwritten or truncated. This holds whether the run returns or raises, and again for
  a second run started from the result of the first.
\<close>

theorem existing_entries_unchanged:
  assumes "wf_fs fs" and "fs p = Some n"
  shows "snd (create_project_structure umask fs) p = Some n \<and>
         snd (create_project_structure umask (snd (create_project_structure umask fs))) p = Some n"
proof -
  have first: "snd (create_project_structure umask fs) p = Some n"
    using script_le[OF assms(1), of umask] assms(2) by (rule map_le_Some)
  have "snd (create_project_structure umask (snd (create_project_structure umask fs))) p = Some n"
    using script_le[OF script_wf[OF assms(1), of umask], of umask] first by (rule map_le_Some)
  with first show ?thesis
    by simp
qed

theorem existing_entries_unchanged_witness:
  "wf_fs edited_fs \<and>
   edited_fs [''ap'', ''src'', ''config.py''] = Some (File ''DEBUG = True'' True) \<and>
   snd (create_project_structure 18 edited_fs) [''ap'', ''src'', ''config.py'']
     = Some (File ''DEBUG = True'' True) \<and>
   snd (create_project_structure 18 (snd (create_project_structure 18 edited_fs)))
     [''ap'', ''src'', ''config.py''] = Some (File ''DEBUG = True'' True)"
proof -
  have e: "edited_fs [''ap'', ''src'', ''config.py''] = Some (File ''DEBUG = True'' True)"
    by (simp add: edited_fs_def)
  from existing_entries_unchanged[OF wf_fs_edited_fs e] wf_fs_edited_fs e show ?thesis
    by simp
qed

text \<open>
  Claim C10 (effects confined to the base directory). A path that does not lie in the
  subtree of \<open>ap\<close> (\<open>ap\<close> itself included in the subtree) has after the run exactly
  what it had before: the same existence and the same contents.
\<close>

theorem effects_confined_to_base:
  assumes "wf_fs fs" and "\<not> prefix [''ap''] q"
  shows "snd (create_project_structure umask fs) q = fs q"
proof (rule ccontr)
  assume "snd (create_project_structure umask fs) q \<noteq> fs q"
  with script_post[OF assms(1), of umask] obtain n x where "x \<in> set script_ops" "creates x q n"
    unfolding run_post_def by blast
  then have "q \<in> set layout_paths"
    by (rule creates_layout)
  with layout_under_ap assms(2) show False
    by blast
qed

theorem effects_confined_to_base_witness:
  "wf_fs edited_fs \<and> \<not> prefix [''ap''] [''README.md''] \<and>
   snd (create_project_structure 18 edited_fs) [''README.md''] = Some (File ''notes'' False)"
proof -
  have n: "\<not> prefix [''ap''] [''README.md'']"
    by simp
  have "edited_fs [''README.md''] = Some (File ''notes'' False)"
    by (simp add: edited_fs_def)
  with effects_confined_to_base[OF wf_fs_edited_fs n] wf_fs_edited_fs n show ?thesis
    by simp
qed

lemma file_not_dir_prefix:
  "\<forall>p\<in>set (init_paths @ file_paths). \<forall>d\<in>set dir_paths. \<not> prefix p d"
  by (simp add: init_paths_eval file_paths_eval dir_paths_eval)

text \<open>
  Claim C1 (completeness). When \<open>create_project_structure\<close> returns, every directory
  path of the manifest is a directory, every marker and file path exists, and each of
  those that did not exist before is an empty file.
\<close>

theorem scaffold_complete:
  assumes "wf_fs fs" and "create_project_structure umask fs = (Ok, fs')"
  shows "(\<forall>d\<in>set dir_paths. isdir fs' d) \<and>
         (\<forall>p\<in>set (init_paths @ file_paths). fs' p \<noteq> None) \<and>
         (\<forall>p\<in>set (init_paths @ file_paths). fs p = None \<longrightarrow> fs' p = Some (File [] True))"
proof -
  from script_post[OF assms(1), of umask] assms(2) have post: "run_post script_ops fs Ok fs'"
    by simp
  then have ens: "\<And>x. x \<in> set script_ops \<Longrightarrow> ensured x fs'"
    by (simp add: run_post_def)
  have dirs: "\<forall>d\<in>set dir_paths. isdir fs' d"
    using ens[of "Makedirs d" for d] by (simp add: set_script_ops)
  have files: "fs' p \<noteq> None" if "p \<in> set (init_paths @ file_paths)" for p
    using ens[of "Touch p"] that
    by (auto simp: set_script_ops simp del: set_append split: option.splits)
  have new: "fs' p = Some (File [] True)" if p: "p \<in> set (init_paths @ file_paths)" and "fs p = None" for p
  proof -
    from files[OF p] that(2) have "fs' p \<noteq> fs p"
      by simp
    with post obtain n x where x: "x \<in> set script_ops" "fs' p = Some n" "creates x p n"
      unfolding run_post_def by blast
    show ?thesis
    proof (cases x)
      case (Makedirs d)
      with x have "d \<in> set dir_paths" "prefix p d"
        by (auto simp: set_script_ops)
      with file_not_dir_prefix p show ?thesis
        by blast
    next
      case (Touch p')
      with x show ?thesis
        by simp
    qed
  qed
  from dirs files new show ?thesis
    by blast
qed

theorem scaffold_complete_witness:
  "wf_fs empty_cwd \<and>
   create_project_structure 18 empty_cwd = (Ok, snd (create_project_structure 18 empty_cwd)) \<and>
   isdir (snd (create_project_structure 18 empty_cwd)) [''ap'', ''data'', ''raw''] \<and>
   empty_cwd [''ap'', ''main.py''] = None \<and>
   snd (create_project_structure 18 empty_cwd) [''ap'', ''main.py''] = Some (File [] True)"
proof -
  have ok: "create_project_structure 18 empty_cwd = (Ok, snd (create_project_structure 18 empty_cwd))"
    using run_empty by (rule run_result)
  have d: "[''ap'', ''data'', ''raw''] \<in> set dir_paths"
    by (simp add: dir_paths_eval)
  have f: "[''ap'', ''main.py''] \<in> set (init_paths @ file_paths)"
    by (simp add: file_paths_eval)
  have n: "empty_cwd [''ap'', ''main.py''] = None"
    by (simp add: empty_cwd_def)
  from scaffold_complete[OF wf_fs_empty_cwd ok] d f n wf_fs_empty_cwd ok show ?thesis
    by blast
qed

lemma run_collision: "fst (create_project_structure 18 collision_fs) = Raised NotADirectoryError"
  by code_simp

lemma run_masked: "fst (create_project_structure 146 empty_cwd) = Raised PermissionError"
  by code_simp

section \<open>Running the script again\<close>

lemma script_ensured:
  assumes "wf_fs fs" and "fst (create_project_structure umask fs) = Ok" and "x \<in> set script_ops"
  shows "ensured x (snd (create_project_structure umask fs))"
proof -
  from script_post[OF assms(1), of umask] assms(2)
  have "\<forall>x\<in>set script_ops. ensured x (snd (create_project_structure umask fs))"
    unfolding run_post_def by simp
  with assms(3) show ?thesis
    by blast
qed

lemma script_rerun:
  assumes wf: "wf_fs fs" and run: "create_project_structure umask fs = (r, fs1)"
  shows "create_project_structure umask fs1 = (r, fs1)"
proof (cases r)
  case Ok
  from run_ops_spec[OF wf, of umask script_ops r fs1] run Ok
  have "wf_fs fs1" and "\<forall>x\<in>set script_ops. ensured x fs1"
    by (simp_all add: create_project_structure_run_ops run_post_def)
  then have "run_ops umask script_ops fs1 = (Ok, fs1)"
    by (rule run_ops_noop)
  with Ok show ?thesis
    by (simp add: create_project_structure_run_ops)
next
  case (Raised e)
  with run have "run_ops umask script_ops fs = (Raised e, fs1)"
    by (simp add: create_project_structure_run_ops)
  from run_ops_fail[OF this] obtain dn x rest s where
    d: "script_ops = dn @ x # rest" "run_ops umask dn fs = (Ok, s)"
       "run_op umask x s = (Raised e, fs1)"
    by blast
  from run_ops_spec[OF wf d(2)] have wfs: "wf_fs s" and en: "\<forall>x\<in>set dn. ensured x s"
    by (simp_all add: run_post_def)
  have sp: "step_post umask x s (Raised e) fs1"
    using wfs d(3) by (rule run_op_spec)
  then have wf1: "wf_fs fs1" and again: "run_op umask x fs1 = (Raised e, fs1)"
    by (simp_all add: step_post_def)
  have "\<forall>x\<in>set dn. ensured x fs1"
    using en step_post_le[OF sp] ensured_mono by blast
  with wf1 have "run_ops umask dn fs1 = (Ok, fs1)"
    by (rule run_ops_noop)
  from run_ops_fail_conv[OF d(1) this again] Raised show ?thesis
    by (simp add: create_project_structure_run_ops)
qed

text \<open>
  Where \<open>ap/src\<close> is a regular file the first run raises, and so does the second: the
  second run can fail.
\<close>

theorem second_run_after_failure_counterexample:
  "wf_fs collision_fs \<and>
   fst (create_project_structure 18 (snd (create_project_structure 18 collision_fs)))
     = Raised NotADirectoryError"
proof -
  have "create_project_structure 18 collision_fs
          = (Raised NotADirectoryError, snd (create_project_structure 18 collision_fs))"
    using run_collision by (rule run_result)
  from script_rerun[OF wf_fs_collision_fs this]
  have "fst (create_project_structure 18 (snd (create_project_structure 18 collision_fs)))
          = Raised NotADirectoryError"
    by (rule arg_cong[where f=fst, THEN trans]) simp
  with wf_fs_collision_fs show ?thesis
    by (rule conjI)
qed

text \<open>
  Claim C3 (idempotence), as the code has it. From any filesystem, a second run started
  where the first one ended ends in that same filesystem with the outcome of the first:
  when the first run returns, the second returns too and changes nothing; when the first
  raises, the second raises the same error (see the counterexample above). Nothing that
  existed before the first run has changed.
\<close>

theorem rerun_idempotent:
  assumes "wf_fs fs" and "create_project_structure umask fs = (r, fs1)"
  shows "create_project_structure umask fs1 = (r, fs1) \<and>
         (r = Ok \<longrightarrow> create_project_structure umask fs1 = (Ok, fs1)) \<and>
         (\<forall>p n. fs p = Some n \<longrightarrow> fs1 p = Some n)"
proof -
  have again: "create_project_structure umask fs1 = (r, fs1)"
    using assms by (rule script_rerun)
  have "fs \<subseteq>\<^sub>m fs1"
    using script_le[OF assms(1), of umask] assms(2) by simp
  then have kept: "\<forall>p n. fs p = Some n \<longrightarrow> fs1 p = Some n"
    by (simp add: map_le_def dom_def)
  from again kept show ?thesis
    by blast
qed

theorem rerun_idempotent_witness:
  "wf_fs empty_cwd \<and>
   create_project_structure 18 empty_cwd = (Ok, snd (create_project_structure 18 empty_cwd)) \<and>
   create_project_structure 18 (snd (create_project_structure 18 empty_cwd))
     = (Ok, snd (create_project_structure 18 empty_cwd)) \<and>
   create_project_structure 146 empty_cwd
     = (Raised PermissionError, snd (create_project_structure 146 empty_cwd)) \<and>
   create_project_structure 146 (snd (create_project_structure 146 empty_cwd))
     = (Raised PermissionError, snd (create_project_structure 146 empty_cwd))"
proof -
  have ok: "create_project_structure 18 empty_cwd
              = (Ok, snd (create_project_structure 18 empty_cwd))"
    using run_empty by (rule run_result)
  have no: "create_project_structure 146 empty_cwd
              = (Raised PermissionError, snd (create_project_structure 146 empty_cwd))"
    using run_masked by (rule run_result)
  from rerun_idempotent[OF wf_fs_empty_cwd ok] rerun_idempotent[OF wf_fs_empty_cwd no]
    wf_fs_empty_cwd ok no
  show ?thesis
    by blast
qed

section \<open>A file where a directory is needed\<close>

lemma wf_fs_prefix_isdir:
  assumes wf: "wf_fs fs"
  shows "fs d \<noteq> None \<Longrightarrow> prefix q d \<Longrightarrow> q \<noteq> d \<Longrightarrow> isdir fs q"
proof (induction d rule: rev_induct)
  case Nil
  then show ?case by simp
next
  case (snoc c d)
  from wf_fs_parent[OF wf snoc.prems(1)] have pd: "isdir fs d"
    by simp
  from snoc.prems(2,3) have "prefix q d"
    by (auto simp: prefix_snoc)
  show ?case
  proof (cases "q = d")
    case True
    with pd show ?thesis by simp
  next
    case False
    from snoc.IH[OF isdir_not_None[OF pd] \<open>prefix q d\<close> False] show ?thesis .
  qed
qed

lemma wf_fs_isdir_prefix:
  assumes "wf_fs fs" and "isdir fs d" and "prefix q d"
  shows "isdir fs q"
proof (cases "q = d")
  case True
  with assms(2) show ?thesis
    by simp
next
  case False
  from wf_fs_prefix_isdir[OF assms(1) isdir_not_None[OF assms(2)] assms(3) False] show ?thesis .
qed

lemma set_expected_dirs: "set expected_dirs = {q. q \<noteq> [] \<and> (\<exists>d\<in>set dir_paths. prefix q d)}"
  by (auto simp: expected_dirs_def set_tl_prefixes)

text \<open>
  Claim C5 (path collision). When a regular file stands at a path where the script needs
  a directory (a listed directory or one of its ancestors, such as \<open>ap/src\<close>),
  \<open>create_project_structure\<close> raises an \<open>OSError\<close>, and the file is still there
  with its bytes.
\<close>

theorem collision_fails:
  assumes "wf_fs fs" and "p \<in> set expected_dirs" and "fs p = Some (File c w)"
  shows "(\<exists>e. fst (create_project_structure umask fs) = Raised e) \<and>
         snd (create_project_structure umask fs) p = Some (File c w)"
proof -
  let ?fs' = "snd (create_project_structure umask fs)"
  have kept: "?fs' p = Some (File c w)"
    using script_le[OF assms(1), of umask] assms(3) by (rule map_le_Some)
  have "fst (create_project_structure umask fs) \<noteq> Ok"
  proof
    assume ok: "fst (create_project_structure umask fs) = Ok"
    from assms(2) obtain d where d: "d \<in> set dir_paths" "prefix p d"
      by (auto simp: set_expected_dirs)
    have "Makedirs d \<in> set script_ops"
      using d(1) by (simp add: set_script_ops)
    from script_ensured[OF assms(1) ok this] have "isdir ?fs' d"
      by simp
    from wf_fs_isdir_prefix[OF script_wf[OF assms(1), of umask] this d(2)] kept show False
      by (simp add: isdir_iff)
  qed
  then have "\<exists>e. fst (create_project_structure umask fs) = Raised e"
    by (cases "fst (create_project_structure umask fs)") auto
  with kept show ?thesis
    by simp
qed

theorem collision_fails_witness:
  "wf_fs collision_fs \<and> [''ap'', ''src''] \<in> set expected_dirs \<and>
   collision_fs [''ap'', ''src''] = Some (File ''notes'' True) \<and>
   (\<exists>e. fst (create_project_structure 18 collision_fs) = Raised e) \<and>
   snd (create_project_structure 18 collision_fs) [''ap'', ''src''] = Some (File ''notes'' True)"
proof -
  have m: "[''ap'', ''src''] \<in> set expected_dirs"
    by (simp add: expected_dirs_eval)
  have c: "collision_fs [''ap'', ''src''] = Some (File ''notes'' True)"
    by (simp add: collision_fs_def)
  from collision_fails[OF wf_fs_collision_fs m c] wf_fs_collision_fs m c show ?thesis
    by blast
qed

section \<open>Failure part-way and the exit status\<close>

lemma run_ops_raised_iff:
  "(\<exists>e s'. run_ops umask xs fs = (Raised e, s')) \<longleftrightarrow>
   (\<exists>done x rest s e s'. xs = done @ x # rest \<and> run_ops umask done fs = (Ok, s) \<and>
      run_op umask x s = (Raised e, s'))"
proof
  assume "\<exists>e s'. run_ops umask xs fs = (Raised e, s')"
  then show "\<exists>done x rest s e s'. xs = done @ x # rest \<and> run_ops umask done fs = (Ok, s) \<and>
      run_op umask x s = (Raised e, s')"
  proof (induction xs arbitrary: fs)
    case Nil
    then show ?case by simp
  next
    case (Cons x xs)
    obtain r1 fs1 where step: "run_op umask x fs = (r1, fs1)"
      by (cases "run_op umask x fs")
    show ?case
    proof (cases r1)
      case (Raised e1)
      with step have "x # xs = [] @ x # xs \<and> run_ops umask [] fs = (Ok, fs) \<and> run_op umask x fs = (Raised e1, fs1)"
        by simp
      then show ?thesis
        by blast
    next
      case Ok
      with step Cons.prems have "\<exists>e s'. run_ops umask xs fs1 = (Raised e, s')"
        by simp
      from Cons.IH[OF this] obtain dn y rs s e s' where
        a: "xs = dn @ y # rs" "run_ops umask dn fs1 = (Ok, s)" "run_op umask y s = (Raised e, s')"
        by blast
      from a(1,2) step Ok have "x # xs = (x # dn) @ y # rs \<and> run_ops umask (x # dn) fs = (Ok, s)"
        by simp
      with a(3) show ?thesis
        by blast
    qed
  qed
next
  assume "\<exists>done x rest s e s'. xs = done @ x # rest \<and> run_ops umask done fs = (Ok, s) \<and>
      run_op umask x s = (Raised e, s')"
  then show "\<exists>e s'. run_ops umask xs fs = (Raised e, s')"
    using run_ops_fail_conv by blast
qed

text \<open>
  Claim C6 (no rollback). When \<open>create_project_structure\<close> raises, the eighteen
  calls split into those that returned, the one that raised, and the rest. The final
  filesystem is the one the raising call left, run after the calls that returned: what
  they ensured is still in place and nothing of theirs is undone; whatever else is new
  was made by the raising call itself before it failed (parents \<open>makedirs\<close> had already
  created); no later call has run; and nothing that existed before has changed.
\<close>

theorem failure_keeps_completed_work:
  assumes "wf_fs fs" and "create_project_structure umask fs = (Raised e, fs')"
  shows "\<exists>done x rest s.
           script_ops = done @ x # rest \<and>
           run_ops umask done fs = (Ok, s) \<and>
           run_op umask x s = (Raised e, fs') \<and>
           (\<forall>y\<in>set done. ensured y fs') \<and>
           (\<forall>p n. s p = Some n \<longrightarrow> fs' p = Some n) \<and>
           (\<forall>p. fs' p \<noteq> s p \<longrightarrow> (\<exists>n. fs' p = Some n \<and> creates x p n)) \<and>
           (\<forall>p n. fs p = Some n \<longrightarrow> fs' p = Some n)"
proof -
  from assms(2) have "run_ops umask script_ops fs = (Raised e, fs')"
    by (simp add: create_project_structure_run_ops)
  from run_ops_fail[OF this] obtain dn x rest s where
    d: "script_ops = dn @ x # rest" "run_ops umask dn fs = (Ok, s)"
       "run_op umask x s = (Raised e, fs')"
    by blast
  from run_ops_spec[OF assms(1) d(2)] have wfs: "wf_fs s"
    and en: "\<forall>y\<in>set dn. ensured y s" and le: "fs \<subseteq>\<^sub>m s"
    by (simp_all add: run_post_def)
  have sp: "step_post umask x s (Raised e) fs'"
    using wfs d(3) by (rule run_op_spec)
  then have made: "\<forall>p. fs' p \<noteq> s p \<longrightarrow> (\<exists>n. fs' p = Some n \<and> creates x p n)"
    unfolding step_post_def by blast
  have le': "s \<subseteq>\<^sub>m fs'"
    using sp by (rule step_post_le)
  have en': "\<forall>y\<in>set dn. ensured y fs'"
    using en le' ensured_mono by blast
  from le' have kept': "\<forall>p n. s p = Some n \<longrightarrow> fs' p = Some n"
    by (simp add: map_le_def dom_def)
  from map_le_trans[OF le le'] have kept: "\<forall>p n. fs p = Some n \<longrightarrow> fs' p = Some n"
    by (simp add: map_le_def dom_def)
  from d en' kept' made kept show ?thesis
    by blast
qed

lemma collision_created: "snd (create_project_structure 18 collision_fs) [''ap'', ''data'', ''raw''] = Some (Dir True True)"
  by code_simp

lemma collision_not_reached: "snd (create_project_structure 18 collision_fs) [''ap'', ''tests''] = None"
  by code_simp

theorem failure_keeps_completed_work_witness:
  "wf_fs collision_fs \<and>
   create_project_structure 18 collision_fs
     = (Raised NotADirectoryError, snd (create_project_structure 18 collision_fs)) \<and>
   (\<exists>done x rest s.
      script_ops = done @ x # rest \<and>
      run_ops 18 done collision_fs = (Ok, s) \<and>
      run_op 18 x s
        = (Raised NotADirectoryError, snd (create_project_structure 18 collision_fs))) \<and>
   snd (create_project_structure 18 collision_fs) [''ap'', ''data'', ''raw''] = Some (Dir True True) \<and>
   snd (create_project_structure 18 collision_fs) [''ap'', ''tests''] = None"
proof -
  have r: "create_project_structure 18 collision_fs
     = (Raised NotADirectoryError, snd (create_project_structure 18 collision_fs))"
    using run_collision by (rule run_result)
  from failure_keeps_completed_work[OF wf_fs_collision_fs r]
  have "\<exists>done x rest s.
      script_ops = done @ x # rest \<and>
      run_ops 18 done collision_fs = (Ok, s) \<and>
      run_op 18 x s
        = (Raised NotADirectoryError, snd (create_project_structure 18 collision_fs))"
    by blast
  with wf_fs_collision_fs r collision_created collision_not_reached show ?thesis
    by blast
qed

text \<open>
  Claim C7 (exit status). The program takes nothing from its command line. Its exit
  status is 0 when \<open>create_project_structure\<close> returns and 1 when it raises, and the
  filesystem it leaves is the one the function left. It is non-zero exactly when some
  call of the sequence, run after all earlier calls have returned, raises: no error of
  a \<open>makedirs\<close> or \<open>touch\<close> call is swallowed by the script.
\<close>

theorem exit_status:
  "fst (run_main argv environ umask fs) = (if fst (create_project_structure umask fs) = Ok then 0 else 1) \<and>
   snd (run_main argv environ umask fs) = snd (create_project_structure umask fs) \<and>
   (fst (run_main argv environ umask fs) \<noteq> 0) =
     (\<exists>done x rest s e s'. script_ops = done @ x # rest \<and> run_ops umask done fs = (Ok, s) \<and>
        run_op umask x s = (Raised e, s'))"
proof -
  obtain r fs' where run: "create_project_structure umask fs = (r, fs')"
    by (cases "create_project_structure umask fs")
  have a: "fst (run_main argv environ umask fs) = (if r = Ok then 0 else 1)"
    and b: "snd (run_main argv environ umask fs) = fs'"
    using run by (cases r; simp add: run_main_def)+
  have "(fst (run_main argv environ umask fs) \<noteq> 0) = (r \<noteq> Ok)"
    unfolding a by simp
  moreover have "(r \<noteq> Ok) = (\<exists>e s'. run_ops umask script_ops fs = (Raised e, s'))"
    using run by (cases r) (simp_all add: create_project_structure_run_ops)
  ultimately have c: "(fst (run_main argv environ umask fs) \<noteq> 0) =
     (\<exists>done x rest s e s'. script_ops = done @ x # rest \<and> run_ops umask done fs = (Ok, s) \<and>
        run_op umask x s = (Raised e, s'))"
    unfolding run_ops_raised_iff by (rule trans)
  from a b c run show ?thesis
    by simp
qed

theorem exit_status_witness:
  "fst (run_main [''project_setup.py''] Map.empty 18 empty_cwd) = 0 \<and>
   fst (run_main [''project_setup.py''] Map.empty 18 collision_fs) = 1"
  using exit_status[of "[''project_setup.py'']" Map.empty 18 empty_cwd]
    exit_status[of "[''project_setup.py'']" Map.empty 18 collision_fs]
    run_empty run_collision
  by simp

lemma manifest_paths_eval:
  "manifest_paths =
     [[''ap'', ''data'', ''raw''], [''ap'', ''data'', ''processed''], [''ap'', ''data'', ''output''],
      [''ap'', ''src'', ''data_processing''], [''ap'', ''src'', ''clustering''], [''ap'', ''tests''],
      [''ap'', ''src'', ''__init__.py''],
      [''ap'', ''src'', ''data_processing'', ''__init__.py''],
      [''ap'', ''src'', ''clustering'', ''__init__.py''],
      [''ap'', ''tests'', ''__init__.py''],
      [''ap'', ''requirements.txt''], [''ap'', ''main.py''],
      [''ap'', ''src'', ''config.py''],
      [''ap'', ''src'', ''data_processing'', ''data_processor.py''],
      [''ap'', ''src'', ''data_processing'', ''feature_engineering.py''],
      [''ap'', ''src'', ''data_processing'', ''utils.py''],
      [''ap'', ''src'', ''clustering'', ''hierarchical_clustering.py''],
      [''ap'', ''src'', ''clustering'', ''visualization.py'']]"
  by (simp add: manifest_paths_def dir_paths_eval init_paths_eval file_paths_eval)

section \<open>Parents of the marker and file paths\<close>

lemma parents_expected:
  "\<forall>p\<in>set (init_paths @ file_paths). butlast p \<in> set expected_dirs"
  by (simp add: init_paths_eval file_paths_eval expected_dirs_eval)

lemma phases:
  "create_project_structure umask fs =
     (case run_ops umask (map Makedirs dir_paths) fs of
        (Ok, fs1) \<Rightarrow> run_ops umask (map Touch (init_paths @ file_paths)) fs1
      | (Raised e, fs1) \<Rightarrow> (Raised e, fs1))"
proof -
  have s: "script_ops = map Makedirs dir_paths @ map Touch (init_paths @ file_paths)"
    by (simp add: script_ops_def)
  show ?thesis
    unfolding create_project_structure_run_ops s run_ops_append ..
qed

lemma makedirs_loop_dir_paths:
  "makedirs_loop umask (Path ''ap'') directories fs = run_ops umask (map Makedirs dir_paths) fs"
  by (simp add: makedirs_loop_run_ops dir_paths_def comp_def)

lemma dirs_phase_parents:
  assumes wf: "wf_fs fs" and run: "run_ops umask (map Makedirs dir_paths) fs = (Ok, fs1)"
    and p: "p \<in> set (init_paths @ file_paths)"
  shows "isdir fs1 (butlast p)"
proof -
  from run_ops_spec[OF wf run] have wf1: "wf_fs fs1"
    and en: "\<forall>x\<in>set (map Makedirs dir_paths). ensured x fs1"
    by (simp_all add: run_post_def)
  from parents_expected p have "butlast p \<in> set expected_dirs"
    by blast
  then obtain d where d: "d \<in> set dir_paths" "prefix (butlast p) d"
    by (auto simp: set_expected_dirs)
  from en d(1) have "isdir fs1 d"
    by auto
  from wf_fs_isdir_prefix[OF wf1 this d(2)] show ?thesis .
qed

lemma makedirs_phase_not_found:
  assumes wf: "wf_fs fs"
  shows "run_ops umask (map Makedirs ds) fs \<noteq> (Raised FileNotFoundError, fs')"
proof
  assume "run_ops umask (map Makedirs ds) fs = (Raised FileNotFoundError, fs')"
  from run_ops_fail[OF this] obtain dn x rest s where
    d: "map Makedirs ds = dn @ x # rest" "run_ops umask dn fs = (Ok, s)"
       "run_op umask x s = (Raised FileNotFoundError, fs')"
    by blast
  from run_ops_spec[OF wf d(2)] have "wf_fs s"
    by (simp add: run_post_def)
  from run_op_spec[OF this d(3)] obtain p where "x = Touch p"
    by (auto simp: step_post_def)
  moreover have "x \<in> set (map Makedirs ds)"
    unfolding d(1) by simp
  ultimately show False
    by auto
qed

lemma touch_phase_not_found:
  assumes wf: "wf_fs fs" and par: "\<forall>p\<in>set ps. isdir fs (butlast p)"
  shows "run_ops umask (map Touch ps) fs \<noteq> (Raised FileNotFoundError, fs')"
proof
  assume "run_ops umask (map Touch ps) fs = (Raised FileNotFoundError, fs')"
  from run_ops_fail[OF this] obtain dn x rest s where
    d: "map Touch ps = dn @ x # rest" "run_ops umask dn fs = (Ok, s)"
       "run_op umask x s = (Raised FileNotFoundError, fs')"
    by blast
  from run_ops_spec[OF wf d(2)] have wfs: "wf_fs s" and le: "fs \<subseteq>\<^sub>m s"
    by (simp_all add: run_post_def)
  from run_op_spec[OF wfs d(3)] obtain p where x: "x = Touch p" and miss: "s (butlast p) = None"
    by (auto simp: step_post_def)
  have "x \<in> set (map Touch ps)"
    unfolding d(1) by simp
  with x have "p \<in> set ps"
    by auto
  with par have "ensured (Makedirs (butlast p)) fs"
    by simp
  from ensured_mono[OF this le] miss show False
    by (simp add: isdir_iff)
qed

text \<open>
  Claim C9 (parents exist for the file phase). The parent of every marker and file path
  is one of the paths at which the directory phase needs a directory (a listed directory,
  an ancestor of one, or \<open>ap\<close>); when the directory loop returns, each of these
  parents is a directory; and the script never raises \<open>FileNotFoundError\<close>, whatever
  the permissions and collisions of the initial filesystem.
\<close>

theorem parents_exist_for_files:
  assumes "wf_fs fs"
  shows "(\<forall>p\<in>set (init_paths @ file_paths). butlast p \<in> set expected_dirs) \<and>
         (\<forall>fs1. makedirs_loop umask (Path ''ap'') directories fs = (Ok, fs1) \<longrightarrow>
            (\<forall>p\<in>set (init_paths @ file_paths). isdir fs1 (butlast p))) \<and>
         fst (create_project_structure umask fs) \<noteq> Raised FileNotFoundError"
proof -
  have b: "\<forall>fs1. makedirs_loop umask (Path ''ap'') directories fs = (Ok, fs1) \<longrightarrow>
            (\<forall>p\<in>set (init_paths @ file_paths). isdir fs1 (butlast p))"
    unfolding makedirs_loop_dir_paths using dirs_phase_parents[OF assms] by blast
  have c: "fst (create_project_structure umask fs) \<noteq> Raised FileNotFoundError"
  proof
    assume f: "fst (create_project_structure umask fs) = Raised FileNotFoundError"
    obtain r1 fs1 where p1: "run_ops umask (map Makedirs dir_paths) fs = (r1, fs1)"
      by (cases "run_ops umask (map Makedirs dir_paths) fs")
    show False
    proof (cases r1)
      case (Raised e)
      with p1 f have "e = FileNotFoundError"
        by (simp add: phases)
      with p1 Raised makedirs_phase_not_found[OF assms] show False
        by blast
    next
      case Ok
      from run_ops_spec[OF assms p1] have wf1: "wf_fs fs1"
        by (simp add: run_post_def)
      have par: "\<forall>p\<in>set (init_paths @ file_paths). isdir fs1 (butlast p)"
        using dirs_phase_parents[OF assms] p1 Ok by blast
      obtain r2 fs2 where p2: "run_ops umask (map Touch (init_paths @ file_paths)) fs1 = (r2, fs2)"
        by (cases "run_ops umask (map Touch (init_paths @ file_paths)) fs1")
      with p1 Ok f have "r2 = Raised FileNotFoundError"
        by (simp add: phases)
      with p2 touch_phase_not_found[OF wf1 par] show False
        by blast
    qed
  qed
  from parents_expected b c show ?thesis
    by blast
qed

lemma empty_dirs_phase:
  "fst (makedirs_loop 18 (Path ''ap'') directories empty_cwd) = Ok"
  by code_simp

lemma empty_init_parent:
  "isdir (snd (makedirs_loop 18 (Path ''ap'') directories empty_cwd)) [''ap'', ''src'']"
  by code_simp

theorem parents_exist_for_files_witness:
  "wf_fs empty_cwd \<and>
   butlast [''ap'', ''src'', ''__init__.py''] = [''ap'', ''src''] \<and>
   [''ap'', ''src''] \<in> set expected_dirs \<and>
   fst (makedirs_loop 18 (Path ''ap'') directories empty_cwd) = Ok \<and>
   isdir (snd (makedirs_loop 18 (Path ''ap'') directories empty_cwd)) [''ap'', ''src''] \<and>
   butlast [''ap'', ''requirements.txt''] = [''ap''] \<and>
   [''ap''] \<in> set expected_dirs \<and>
   fst (create_project_structure 18 empty_cwd) \<noteq> Raised FileNotFoundError \<and>
   fst (create_project_structure 18 empty_cwd) = Ok"
proof -
  have m: "[''ap'', ''src'', ''__init__.py''] \<in> set (init_paths @ file_paths)"
      "[''ap'', ''requirements.txt''] \<in> set (init_paths @ file_paths)"
    by (simp_all add: init_paths_eval file_paths_eval)
  have b: "butlast [''ap'', ''src'', ''__init__.py''] = [''ap'', ''src'']"
      "butlast [''ap'', ''requirements.txt''] = [''ap'']"
    by simp_all
  from parents_exist_for_files[OF wf_fs_empty_cwd] m
  have "butlast [''ap'', ''src'', ''__init__.py''] \<in> set expected_dirs"
    and "butlast [''ap'', ''requirements.txt''] \<in> set expected_dirs"
    and "fst (create_project_structure 18 empty_cwd) \<noteq> Raised FileNotFoundError"
    by blast+
  with b have "[''ap'', ''src''] \<in> set expected_dirs" "[''ap''] \<in> set expected_dirs"
    and "fst (create_project_structure 18 empty_cwd) \<noteq> Raised FileNotFoundError"
    by simp_all
  with wf_fs_empty_cwd b empty_dirs_phase empty_init_parent run_empty show ?thesis
    by blast
qed

section \<open>The exact layout\<close>

lemma layout_paths_manifest:
  "set layout_paths = set manifest_paths \<union> {[''ap''], [''ap'', ''data''], [''ap'', ''src'']}"
  unfolding layout_paths_def manifest_paths_def set_append expected_dirs_eval dir_paths_eval
  by auto

lemma layout_created:
  assumes wf: "wf_fs fs" and run: "create_project_structure umask fs = (Ok, fs')"
  shows "dom fs' = dom fs \<union> set layout_paths"
proof (rule set_eqI)
  fix q
  from script_post[OF wf, of umask] run have post: "run_post script_ops fs Ok fs'"
    by simp
  then have wf': "wf_fs fs'" and le: "fs \<subseteq>\<^sub>m fs'"
    and ens: "\<And>x. x \<in> set script_ops \<Longrightarrow> ensured x fs'"
    by (simp_all add: run_post_def)
  show "q \<in> dom fs' \<longleftrightarrow> q \<in> dom fs \<union> set layout_paths"
  proof
    assume q: "q \<in> dom fs'"
    show "q \<in> dom fs \<union> set layout_paths"
    proof (cases "q \<in> dom fs")
      case True
      then show ?thesis by simp
    next
      case False
      with q have "fs' q \<noteq> fs q"
        by auto
      with post obtain n x where "x \<in> set script_ops" "creates x q n"
        unfolding run_post_def by blast
      then have "q \<in> set layout_paths"
        by (rule creates_layout)
      then show ?thesis by simp
    qed
  next
    assume "q \<in> dom fs \<union> set layout_paths"
    then consider (old) "q \<in> dom fs" | (needed) "q \<in> set expected_dirs"
      | (touched) "q \<in> set (init_paths @ file_paths)"
      by (auto simp: layout_paths_def)
    then show "q \<in> dom fs'"
    proof cases
      case old
      with le show ?thesis
        using map_le_implies_dom_le by blast
    next
      case needed
      then obtain d where d: "d \<in> set dir_paths" "prefix q d"
        by (auto simp: set_expected_dirs)
      from ens[of "Makedirs d"] d(1) have "isdir fs' d"
        by (simp add: set_script_ops)
      from wf_fs_isdir_prefix[OF wf' this d(2)] show ?thesis
        by (auto simp: isdir_iff)
    next
      case touched
      with ens[of "Touch q"] show ?thesis
        by (auto simp: set_script_ops simp del: set_append split: option.splits)
    qed
  qed
qed

text \<open>
  From an empty working directory the run returns and \<open>ap/data\<close> exists afterwards,
  although it is none of the eighteen listed paths.
\<close>

theorem layout_with_parents_counterexample:
  "fst (create_project_structure 18 empty_cwd) = Ok \<and>
   empty_cwd [''ap'', ''data''] = None \<and>
   snd (create_project_structure 18 empty_cwd) [''ap'', ''data''] = Some (Dir True True) \<and>
   [''ap'', ''data''] \<notin> set manifest_paths"
proof -
  have a: "empty_cwd [''ap'', ''data''] = None"
    by (simp add: empty_cwd_def)
  have b: "snd (create_project_structure 18 empty_cwd) [''ap'', ''data''] = Some (Dir True True)"
    by code_simp
  have c: "[''ap'', ''data''] \<notin> set manifest_paths"
    by (simp add: manifest_paths_eval)
  from run_empty a b c show ?thesis
    by blast
qed

text \<open>
  Claim C2 (exact layout), as the code has it. After a run that returns, the paths that
  exist are those that existed before, the eighteen paths of the three lists, and the
  three directories \<open>ap\<close>, \<open>ap/data\<close> and \<open>ap/src\<close> that \<open>makedirs\<close> creates as
  parents: no more and no fewer.
\<close>

theorem layout_exact:
  assumes "wf_fs fs" and "create_project_structure umask fs = (Ok, fs')"
  shows "dom fs' = dom fs \<union> set manifest_paths \<union> {[''ap''], [''ap'', ''data''], [''ap'', ''src'']} \<and>
         manifest_paths =
           [[''ap'', ''data'', ''raw''], [''ap'', ''data'', ''processed''],
            [''ap'', ''data'', ''output''], [''ap'', ''src'', ''data_processing''],
            [''ap'', ''src'', ''clustering''], [''ap'', ''tests''],
            [''ap'', ''src'', ''__init__.py''],
            [''ap'', ''src'', ''data_processing'', ''__init__.py''],
            [''ap'', ''src'', ''clustering'', ''__init__.py''],
            [''ap'', ''tests'', ''__init__.py''],
            [''ap'', ''requirements.txt''], [''ap'', ''main.py''],
            [''ap'', ''src'', ''config.py''],
            [''ap'', ''src'', ''data_processing'', ''data_processor.py''],
            [''ap'', ''src'', ''data_processing'', ''feature_engineering.py''],
            [''ap'', ''src'', ''data_processing'', ''utils.py''],
            [''ap'', ''src'', ''clustering'', ''hierarchical_clustering.py''],
            [''ap'', ''src'', ''clustering'', ''visualization.py'']]"
proof -
  have "dom fs' = dom fs \<union> set manifest_paths \<union> {[''ap''], [''ap'', ''data''], [''ap'', ''src'']}"
    unfolding layout_created[OF assms] layout_paths_manifest by blast
  with manifest_paths_eval show ?thesis
    by (rule conjI[rotated])
qed

theorem layout_exact_witness:
  "wf_fs empty_cwd \<and>
   create_project_structure 18 empty_cwd = (Ok, snd (create_project_structure 18 empty_cwd)) \<and>
   dom (snd (create_project_structure 18 empty_cwd))
     = dom empty_cwd \<union> set manifest_paths \<union> {[''ap''], [''ap'', ''data''], [''ap'', ''src'']} \<and>
   dom empty_cwd = {[]} \<and>
   length manifest_paths = 18 \<and> distinct manifest_paths"
proof -
  have ok: "create_project_structure 18 empty_cwd = (Ok, snd (create_project_structure 18 empty_cwd))"
    using run_empty by (rule run_result)
  have d: "dom empty_cwd = {[]}"
    by (simp add: empty_cwd_def)
  have l: "length manifest_paths = 18" and t: "distinct manifest_paths"
    by (simp_all add: manifest_paths_eval)
  from layout_exact[OF wf_fs_empty_cwd ok] wf_fs_empty_cwd ok d l t show ?thesis
    by blast
qed

section \<open>Dependence on the initial filesystem only\<close>





















end
